theory Spec2Isabelle
  imports Main "HOL-Library.FSet" "HOL-Library.Multiset"
begin

section \<open>Bulk-action messages (views/nodes.py)\<close>

text \<open>
  Python's \<^verbatim>\<open>'%d' % n\<close> renders an integer in decimal, with a leading minus sign
  for a negative one.
\<close>

definition digit_char :: "nat \<Rightarrow> char" where
  "digit_char n = ''0123456789'' ! n"

fun str_nat :: "nat \<Rightarrow> string" where
  "str_nat n = (if n < 10 then [digit_char n] else str_nat (n div 10) @ [digit_char (n mod 10)])"

declare str_nat.simps [simp del]

definition percent_d :: "int \<Rightarrow> string" where
  "percent_d i = (if i < 0 then CHR ''-'' # str_nat (nat (- i)) else str_nat (nat i))"

text \<open>\<^verbatim>\<open>sep.join(xs)\<close>.\<close>

fun join :: "string \<Rightarrow> string list \<Rightarrow> string" where
  "join sep [] = []"
| "join sep [x] = x"
| "join sep (x # y # ys) = x @ sep @ join sep (y # ys)"

text \<open>An action class, as far as \<^verbatim>\<open>message_from_form_stats\<close> reads it.\<close>

record action =
  display_bulk :: string

text \<open>
  A message template is a format string with one \<^verbatim>\<open>%s\<close> and one \<^verbatim>\<open>%d\<close>, applied to
  \<^verbatim>\<open>(action_name, number)\<close>; it is modelled as the function that the \<^verbatim>\<open>%\<close>
  operator computes from it. Each bucket has a pair [singular, plural].
\<close>

type_synonym template = "string \<Rightarrow> int \<Rightarrow> string"

definition done_templates :: "template \<times> template" where
  "done_templates =
     (\<lambda>s d. s @ '' was successfully performed on '' @ percent_d d @ '' node.'',
      \<lambda>s d. s @ '' was successfully performed on '' @ percent_d d @ '' nodes.'')"

definition not_actionable_templates :: "template \<times> template" where
  "not_actionable_templates =
     (\<lambda>s d. s @ '' could not be performed on '' @ percent_d d @ '' node because its ''
          @ ''state does not allow that action.'',
      \<lambda>s d. s @ '' could not be performed on '' @ percent_d d @ '' nodes because their ''
          @ ''state does not allow that action.'')"

definition not_permitted_templates :: "template \<times> template" where
  "not_permitted_templates =
     (\<lambda>s d. s @ '' could not be performed on '' @ percent_d d @ '' node because that ''
          @ ''action is not permitted on that node.'',
      \<lambda>s d. s @ '' could not be performed on '' @ percent_d d @ '' nodes because that ''
          @ ''action is not permitted on these nodes.'')"

text \<open>
  The loop over \<^verbatim>\<open>number_message\<close>; its state is the current \<^verbatim>\<open>action_name\<close> and the
  list \<^verbatim>\<open>message\<close> built so far.
\<close>

fun message_loop ::
  "(int \<times> template \<times> template) list \<Rightarrow> string \<Rightarrow> string list \<Rightarrow> string list" where
  "message_loop [] action_name message = message"
| "message_loop ((number, singular, plural) # rest) action_name message =
     (if number \<noteq> 0
      then message_loop rest ''It''
             (message @ [(if number = 1 then singular else plural) action_name number])
      else message_loop rest action_name message)"

definition message_from_form_stats :: "action \<Rightarrow> int \<Rightarrow> int \<Rightarrow> int \<Rightarrow> string" where
  "message_from_form_stats action done not_actionable not_permitted =
     (let action_name = ''The action \"'' @ display_bulk action @ ''\"'';
          number_message =
            [(done, done_templates),
             (not_actionable, not_actionable_templates),
             (not_permitted, not_permitted_templates)]
      in join '' '' (message_loop number_message action_name []))"


text \<open>
  The specification's wording of the same message: one sentence for each nonzero count, in the
  order done, not actionable, not permitted; the singular template for a count of 1 and
  the plural one otherwise; the first sentence names the action, the later ones say
  \<^verbatim>\<open>It\<close>.
\<close>

definition sentence :: "template \<times> template \<Rightarrow> string \<Rightarrow> int \<Rightarrow> string" where
  "sentence templates subject number =
     (if number = 1 then fst templates else snd templates) subject number"

definition spec_sentences :: "action \<Rightarrow> int \<Rightarrow> int \<Rightarrow> int \<Rightarrow> string list" where
  "spec_sentences action done not_actionable not_permitted =
     (case filter (\<lambda>(number, templates). number \<noteq> 0)
             [(done, done_templates),
              (not_actionable, not_actionable_templates),
              (not_permitted, not_permitted_templates)] of
        [] \<Rightarrow> []
      | (number, templates) # rest \<Rightarrow>
          sentence templates (''The action \"'' @ display_bulk action @ ''\"'') number
            # map (\<lambda>(number, templates). sentence templates ''It'' number) rest)"


section \<open>Constraint parsing (views/nodes.py)\<close>

text \<open>
  A \<^typ>\<open>char\<close> stands for a code point below 256. The query is a unicode string, so
  \<^verbatim>\<open>strip()\<close> and \<^verbatim>\<open>split()\<close> use the unicode whitespace of that range: tab, line
  feed, vertical tab, form feed, carriage return, the separators 0x1C to 0x1F, space,
  NEL (0x85) and the no-break space (0xA0).
\<close>

definition isspace :: "char \<Rightarrow> bool" where
  "isspace c = (c \<in> set [CHR 0x09, CHR 0x0A, CHR 0x0B, CHR 0x0C, CHR 0x0D,
                           CHR 0x1C, CHR 0x1D, CHR 0x1E, CHR 0x1F, CHR 0x20,
                           CHR 0x85, CHR 0xA0])"

definition strip :: "string \<Rightarrow> string" where
  "strip s = rev (dropWhile isspace (rev (dropWhile isspace s)))"

text \<open>
  \<^verbatim>\<open>s.split()\<close>: the maximal runs of characters that are not whitespace. \<open>cur\<close> is the
  run being read.
\<close>

fun split_run :: "string \<Rightarrow> string \<Rightarrow> string list" where
  "split_run cur [] = (if cur = [] then [] else [cur])"
| "split_run cur (c # cs) =
     (if isspace c
      then (if cur = [] then split_run [] cs else cur # split_run [] cs)
      else split_run (cur @ [c]) cs)"

definition split_ws :: "string \<Rightarrow> string list" where
  "split_ws s = split_run [] s"

text \<open>\<^verbatim>\<open>word.split("=", 1)\<close>: at most one split, at the first \<^verbatim>\<open>=\<close>.\<close>

definition split_eq1 :: "string \<Rightarrow> string list" where
  "split_eq1 word =
     (case dropWhile (\<lambda>c. c \<noteq> CHR ''='') word of
        [] \<Rightarrow> [word]
      | _ # rest \<Rightarrow> [takeWhile (\<lambda>c. c \<noteq> CHR ''='') word, rest])"

text \<open>The loop of \<^verbatim>\<open>_parse_constraints\<close>, which builds the list \<^verbatim>\<open>constraints\<close>.\<close>

fun constraints_loop :: "string list \<Rightarrow> string list \<Rightarrow> string list" where
  "constraints_loop [] constraints = constraints"
| "constraints_loop (word # rest) constraints =
     (let parts = split_eq1 word
      in if length parts \<noteq> 2
         then constraints_loop rest (constraints @ [parts ! 0 @ ''=''])
         else if parts ! 1 \<noteq> ''any''
         then constraints_loop rest (constraints @ [parts ! 0 @ ''='' @ parts ! 1])
         else constraints_loop rest constraints)"

definition constraints_of :: "string \<Rightarrow> string list" where
  "constraints_of query_string = constraints_loop (split_ws (strip query_string)) []"

text \<open>
  Django's \<^verbatim>\<open>QueryDict\<close> is not part of the sources: it is a parameter, applied to the
  joined constraints.
\<close>

definition parse_constraints :: "(string \<Rightarrow> 'qd) \<Rightarrow> string \<Rightarrow> 'qd" where
  "parse_constraints QueryDict query_string =
     QueryDict (join ''&'' (constraints_of query_string))"

text \<open>
  The specification's wording: what becomes of one token. A bare token becomes the empty-value
  constraint, a token whose value is exactly \<^verbatim>\<open>any\<close> is discarded, any other token is
  kept as it is.
\<close>

definition token_value :: "string \<Rightarrow> string" where
  "token_value word = drop 1 (dropWhile (\<lambda>c. c \<noteq> CHR ''='') word)"

definition spec_constraint :: "string \<Rightarrow> string list" where
  "spec_constraint word =
     (if CHR ''='' \<notin> set word then [word @ ''='']
      else if token_value word = ''any'' then []
      else [word])"


section \<open>Filtering the node listing (views/nodes.py)\<close>

text \<open>
  \<^verbatim>\<open>AcquireNodeForm.Strict\<close> and its \<^verbatim>\<open>rename_fields\<close> are not part of the sources. The
  form built from the data and renamed is a parameter; a form is what the view reads of
  it: whether it is valid, its errors by field (in the order of \<^verbatim>\<open>errors.items()\<close>) and
  its \<^verbatim>\<open>filter_nodes\<close>.
\<close>

record 'n form =
  is_valid :: bool
  errors :: "(string \<times> string list) list"
  filter_nodes :: "'n list \<Rightarrow> 'n list"

record node_list_view =
  query :: string
  query_error :: "string option"

definition constrain_nodes ::
  "(string \<Rightarrow> 'qd) \<Rightarrow> ('qd \<Rightarrow> 'n form) \<Rightarrow> node_list_view \<Rightarrow> 'n list
     \<Rightarrow> 'n list \<times> node_list_view" where
  "constrain_nodes QueryDict Strict self nodes_query =
     (let data = parse_constraints QueryDict (query self);
          form = Strict data
      in if is_valid form
         then (filter_nodes form nodes_query, self)
         else ([],
               self\<lparr>query_error :=
                 Some (join '', ''
                   (map (\<lambda>(field, errors). field @ '': '' @ join '', '' errors)
                     (errors form)))\<rparr>))"


section \<open>Deleting a node (views/nodes.py)\<close>

text \<open>
  Modelled from the spec: \<^verbatim>\<open>maasserver.enum\<close> is not part of the sources. The statuses
  are the ones the spec lists for the lifecycle; the permission levels are VIEW, EDIT and
  ADMIN.
\<close>

datatype node_status =
  NEW | COMMISSIONING | FAILED_COMMISSIONING | READY | ALLOCATED | DEPLOYING | DEPLOYED
  | FAILED_DEPLOYMENT | RELEASING | BROKEN

datatype node_permission = VIEW | EDIT | ADMIN

datatype http_error = Http404 | PermissionDenied

record node =
  system_id :: string
  status :: node_status

text \<open>
  \<^verbatim>\<open>Node.objects.get_node_or_404\<close> is not part of the sources either: it is a parameter,
  which answers with the node or raises. \<^verbatim>\<open>self.kwargs.get('system_id', None)\<close> is an
  optional string.
\<close>

type_synonym 'u get_node_or_404 =
  "string option \<Rightarrow> 'u \<Rightarrow> node_permission \<Rightarrow> http_error + node"

definition NodeDelete_get_object ::
  "'u get_node_or_404 \<Rightarrow> string option \<Rightarrow> 'u \<Rightarrow> http_error + node" where
  "NodeDelete_get_object get_node_or_404 kwargs_system_id user =
     (case get_node_or_404 kwargs_system_id user ADMIN of
        Inl e \<Rightarrow> Inl e
      | Inr node \<Rightarrow>
          if status node = ALLOCATED then Inl PermissionDenied else Inr node)"


section \<open>MAC addresses of the listed nodes (views/nodes.py)\<close>

record macaddress =
  mac_address :: string
  created :: int

record listed_node =
  macaddress_set :: "macaddress list"
  primary_mac :: "string option"
  primary_mac_vendor :: "string option"
  extra_macs :: "string list"

text \<open>
  \<^verbatim>\<open>get_vendor_for_mac\<close>: the registry of \<^verbatim>\<open>netaddr\<close> is a parameter, \<open>None\<close> where it
  raises \<^verbatim>\<open>NotRegisteredError\<close>.
\<close>

definition get_vendor_for_mac :: "(string \<Rightarrow> string option) \<Rightarrow> string \<Rightarrow> string" where
  "get_vendor_for_mac registration_org mac =
     (case registration_org mac of
        Some org \<Rightarrow> org
      | None \<Rightarrow> ''Unknown Vendor'')"

text \<open>
  The body of the loop of \<^verbatim>\<open>configure_macs\<close>. Python's \<^verbatim>\<open>sorted\<close> is stable, as
  \<^const>\<open>sort_key\<close> is.
\<close>

definition configure_node :: "(string \<Rightarrow> string option) \<Rightarrow> listed_node \<Rightarrow> listed_node" where
  "configure_node registration_org node =
     (let macs = macaddress_set node;
          macs = sort_key created macs;
          macs = map mac_address macs
      in if length macs = 0
         then node\<lparr>primary_mac := None, primary_mac_vendor := None, extra_macs := []\<rparr>
         else node\<lparr>primary_mac := Some (macs ! 0),
                   primary_mac_vendor := Some (get_vendor_for_mac registration_org (macs ! 0)),
                   extra_macs := drop 1 macs\<rparr>)"

definition configure_macs ::
  "(string \<Rightarrow> string option) \<Rightarrow> listed_node list \<Rightarrow> listed_node list" where
  "configure_macs registration_org nodes = map (configure_node registration_org) nodes"


section \<open>Events of a node (views/nodes.py)\<close>

text \<open>
  The rows of the \<^verbatim>\<open>Event\<close> table, as far as the views query them: the primary key,
  the node (referred to by its \<open>system_id\<close>; null once the node is deleted) and the
  level of the event's type. \<^verbatim>\<open>logging.DEBUG\<close> is 10. The views below are given the node
  that \<^verbatim>\<open>self.get_object()\<close> returned.
\<close>

record event =
  event_id :: nat
  event_node :: "string option"
  type_level :: int

definition DEBUG :: int where
  "DEBUG = 10"

text \<open>\<^verbatim>\<open>order_by('-id')\<close>: descending primary keys.\<close>

definition order_by_minus_id :: "event list \<Rightarrow> event list" where
  "order_by_minus_id events = rev (sort_key event_id events)"

definition filter_node :: "node \<Rightarrow> event list \<Rightarrow> event list" where
  "filter_node n events = filter (\<lambda>e. event_node e = Some (system_id n)) events"

definition NodeEventListView_get_queryset :: "event list \<Rightarrow> node \<Rightarrow> event list" where
  "NodeEventListView_get_queryset events n = order_by_minus_id (filter_node n events)"

definition number_of_events_shown :: nat where
  "number_of_events_shown = 5"

text \<open>The two entries that \<^verbatim>\<open>NodeView.get_context_data\<close> computes from the events.\<close>

record event_context =
  event_list :: "event list"
  event_count :: nat

definition NodeView_get_context_data :: "event list \<Rightarrow> node \<Rightarrow> event_context" where
  "NodeView_get_context_data events n =
     \<lparr>event_list =
        take number_of_events_shown
          (order_by_minus_id
            (filter (\<lambda>e. type_level e \<noteq> DEBUG) (filter_node n events))),
      event_count = length (filter_node n events)\<rparr>"


section \<open>The unique index on power parameters (migration 0245)\<close>

record bmc =
  power_type :: string
  power_parameters :: string

text \<open>
  The index \<^verbatim>\<open>maasserver_bmc_power_type_parameters_idx\<close> that the migration creates:
  unique on \<^verbatim>\<open>(power_type, md5(power_parameters::text))\<close>, over the rows
  \<^verbatim>\<open>WHERE (power_type != 'manual')\<close>. PostgreSQL's \<^verbatim>\<open>md5\<close> is a parameter;
  \<open>power_parameters\<close> is the text of the column.
\<close>

definition indexed_rows :: "bmc list \<Rightarrow> bmc list" where
  "indexed_rows rows = filter (\<lambda>r. power_type r \<noteq> ''manual'') rows"

definition index_key :: "(string \<Rightarrow> 'h) \<Rightarrow> bmc \<Rightarrow> string \<times> 'h" where
  "index_key md5 r = (power_type r, md5 (power_parameters r))"

definition power_type_parameters_idx :: "(string \<Rightarrow> 'h) \<Rightarrow> bmc list \<Rightarrow> bool" where
  "power_type_parameters_idx md5 rows = distinct (map (index_key md5) (indexed_rows rows))"


section \<open>Fixing the keys of owner data (migration 0240)\<close>

text \<open>
  Keys are Python 3 strings; a \<^typ>\<open>char\<close> stands for a code point below 256.

  \<^verbatim>\<open>REPLACE_RE\<close> is a Python pattern on \<^verbatim>\<open>str\<close>, so its \<^verbatim>\<open>\w\<close> follows Unicode: below 256
  it holds of the ASCII letters and digits, of the underscore, and of the Latin-1
  characters 0xAA, 0xB2, 0xB3, 0xB5, 0xB9, 0xBA, 0xBC to 0xBE, 0xC0 to 0xD6, 0xD8 to 0xF6
  and 0xF8 to 0xFF.

  The regex of the query, \<^verbatim>\<open>^[\w.-]+$\<close>, is matched by the database (the whole key, at
  least one character). Its \<^verbatim>\<open>\w\<close> is the same on ASCII; beyond ASCII it depends on the
  locale of the database, which is the parameter \<open>locale_alnum\<close>.
\<close>

definition code_point :: "char \<Rightarrow> nat" where
  "code_point c = of_char c"

definition in_range :: "nat \<Rightarrow> nat \<Rightarrow> char \<Rightarrow> bool" where
  "in_range lo hi c = (lo \<le> code_point c \<and> code_point c \<le> hi)"

definition ascii_word_char :: "char \<Rightarrow> bool" where
  "ascii_word_char c =
     (in_range 0x30 0x39 c \<or> in_range 0x41 0x5A c \<or> c = CHR ''_'' \<or> in_range 0x61 0x7A c)"

definition py_word_char :: "char \<Rightarrow> bool" where
  "py_word_char c =
     (ascii_word_char c \<or> c = CHR 0xAA \<or> in_range 0xB2 0xB3 c \<or> c = CHR 0xB5
      \<or> in_range 0xB9 0xBA c \<or> in_range 0xBC 0xBE c \<or> in_range 0xC0 0xD6 c
      \<or> in_range 0xD8 0xF6 c \<or> in_range 0xF8 0xFF c)"

definition db_word_char :: "(char \<Rightarrow> bool) \<Rightarrow> char \<Rightarrow> bool" where
  "db_word_char locale_alnum c =
     (if code_point c < 128 then ascii_word_char c else locale_alnum c)"

definition key_regex :: "(char \<Rightarrow> bool) \<Rightarrow> string \<Rightarrow> bool" where
  "key_regex locale_alnum k =
     (k \<noteq> [] \<and>
      list_all (\<lambda>c. db_word_char locale_alnum c \<or> c = CHR ''.'' \<or> c = CHR ''-'') k)"

text \<open>\<^verbatim>\<open>REPLACE_RE.sub("_", key)\<close>, with \<^verbatim>\<open>REPLACE_RE = re.compile(r"[^\w.-]")\<close>.\<close>

definition REPLACE_RE_sub :: "string \<Rightarrow> string" where
  "REPLACE_RE_sub k =
     map (\<lambda>c. if py_word_char c \<or> c = CHR ''.'' \<or> c = CHR ''-'' then c else CHR ''_'') k"

text \<open>
  A row of \<^verbatim>\<open>OwnerData\<close>: the migration reads and writes \<open>node_id\<close> and \<open>key\<close>; the
  other columns are the extension of the record. The table is the list of its rows, in
  the order in which the query returns them.
\<close>

record owner_data =
  node_id :: nat
  key :: string

datatype py_error = KeyError

text \<open>The keys of the rows of node \<open>n\<close>, as a set.\<close>

definition keys_of_node :: "nat \<Rightarrow> 'a owner_data_scheme list \<Rightarrow> string fset" where
  "keys_of_node n rows = fset_of_list (map key (filter (\<lambda>e. node_id e = n) rows))"

text \<open>
  The dictionary \<^verbatim>\<open>existing_node_keys\<close>: one set of keys for each \<open>node_id\<close> that
  occurs in the table.
\<close>

definition existing_node_keys :: "'a owner_data_scheme list \<Rightarrow> (nat \<rightharpoonup> string fset)" where
  "existing_node_keys rows =
     (\<lambda>n. if n \<in> node_id ` set rows then Some (keys_of_node n rows) else None)"

text \<open>\<^verbatim>\<open>while new_key in node_keys: new_key += "_"\<close>\<close>

function while_new_key_in :: "string fset \<Rightarrow> string \<Rightarrow> string" where
  "while_new_key_in node_keys new_key =
     (if new_key |\<in>| node_keys then while_new_key_in node_keys (new_key @ ''_'')
      else new_key)"
  by pat_completeness auto
termination
proof (relation "measure (\<lambda>(node_keys, new_key).
         fcard (ffilter (\<lambda>k. length new_key \<le> length k) node_keys))")
  show "wf (measure (\<lambda>(node_keys, new_key).
         fcard (ffilter (\<lambda>k. length new_key \<le> length k) node_keys)))"
    by simp
next
  fix node_keys :: "string fset" and new_key :: string
  assume mem: "new_key |\<in>| node_keys"
  let ?longer = "ffilter (\<lambda>k. length (new_key @ ''_'') \<le> length k) node_keys"
  let ?long = "ffilter (\<lambda>k. length new_key \<le> length k) node_keys"
  have "?longer |\<subseteq>| ?long" by auto
  moreover have "new_key |\<in>| ?long" using mem by simp
  moreover have "new_key |\<notin>| ?longer" by simp
  ultimately have "?longer |\<subset>| ?long" by blast
  then have "fcard ?longer < fcard ?long" by (rule pfsubset_fcard_mono)
  then show "((node_keys, new_key @ ''_''), (node_keys, new_key))
      \<in> measure (\<lambda>(node_keys, new_key).
           fcard (ffilter (\<lambda>k. length new_key \<le> length k) node_keys))"
    by simp
qed

declare while_new_key_in.simps [simp del]

text \<open>
  The loop over the rows. A row that matches the regex is excluded from the query and so
  stays as it is; any other row is saved with its new key. \<^verbatim>\<open>existing_node_keys[...]\<close>
  and \<^verbatim>\<open>node_keys.remove(orig_key)\<close> raise \<^verbatim>\<open>KeyError\<close> on a missing key.
\<close>

fun fix_loop ::
  "(char \<Rightarrow> bool) \<Rightarrow> 'a owner_data_scheme list \<Rightarrow> (nat \<rightharpoonup> string fset)
     \<Rightarrow> py_error + 'a owner_data_scheme list" where
  "fix_loop locale_alnum [] existing = Inr []"
| "fix_loop locale_alnum (entry # rest) existing =
     (if key_regex locale_alnum (key entry)
      then (case fix_loop locale_alnum rest existing of
              Inl err \<Rightarrow> Inl err
            | Inr saved \<Rightarrow> Inr (entry # saved))
      else
        (let orig_key = key entry
         in case existing (node_id entry) of
              None \<Rightarrow> Inl KeyError
            | Some node_keys \<Rightarrow>
                if orig_key |\<notin>| node_keys then Inl KeyError
                else
                  (let node_keys = node_keys |-| {|orig_key|};
                       new_key = while_new_key_in node_keys (REPLACE_RE_sub (key entry));
                       node_keys = finsert new_key node_keys
                   in case fix_loop locale_alnum rest
                             (existing(node_id entry \<mapsto> node_keys)) of
                        Inl err \<Rightarrow> Inl err
                      | Inr saved \<Rightarrow> Inr (entry\<lparr>key := new_key\<rparr> # saved))))"

definition fix_ownerdata_keys ::
  "(char \<Rightarrow> bool) \<Rightarrow> 'a owner_data_scheme list
     \<Rightarrow> py_error + 'a owner_data_scheme list" where
  "fix_ownerdata_keys locale_alnum rows =
     fix_loop locale_alnum rows (existing_node_keys rows)"

text \<open>
  The specification's wording of the migration, with no dictionary: a row whose key does
  not match gets the key with every disallowed character replaced, followed by as many
  underscores as it takes to differ from the keys that the other rows of its node have
  at that moment (\<open>saved\<close> are the rows before it, already rewritten, \<open>rest\<close> the rows
  after it).
\<close>

fun rewrite_keys ::
  "(char \<Rightarrow> bool) \<Rightarrow> 'a owner_data_scheme list \<Rightarrow> 'a owner_data_scheme list
     \<Rightarrow> 'a owner_data_scheme list" where
  "rewrite_keys locale_alnum saved [] = []"
| "rewrite_keys locale_alnum saved (entry # rest) =
     (let entry' =
        (if key_regex locale_alnum (key entry) then entry
         else entry\<lparr>key :=
           while_new_key_in (keys_of_node (node_id entry) (saved @ rest))
             (REPLACE_RE_sub (key entry))\<rparr>)
      in entry' # rewrite_keys locale_alnum (saved @ [entry']) rest)"

text \<open>No node has two rows with the same key.\<close>

definition unique_keys :: "'a owner_data_scheme list \<Rightarrow> bool" where
  "unique_keys rows = distinct (map (\<lambda>e. (node_id e, key e)) rows)"


section \<open>Properties of the bulk-action message\<close>

lemma message_loop_three:
  "message_loop [(a, ta), (b, tb), (c, tc)] name [] =
     (case filter (\<lambda>(number, templates). number \<noteq> 0) [(a, ta), (b, tb), (c, tc)] of
        [] \<Rightarrow> []
      | (number, templates) # rest \<Rightarrow>
          sentence templates name number
            # map (\<lambda>(number, templates). sentence templates ''It'' number) rest)"
  by (cases ta; cases tb; cases tc) (simp add: sentence_def)

lemma power_on_example:
  "message_from_form_stats \<lparr>display_bulk = ''Power on''\<rparr> 2 1 0 =
     ''The action \"Power on\" was successfully performed on 2 nodes. It could not be performed on 1 node because its state does not allow that action.''"
  by (simp add: message_from_form_stats_def done_templates_def
      not_actionable_templates_def not_permitted_templates_def percent_d_def
      str_nat.simps digit_char_def)

text \<open>
  C1. For every action and every triple of counts, the message is the sentences of the
  nonzero counts, in the order done, not actionable, not permitted, joined by a space;
  each sentence takes the singular template when its count is 1 and the plural one
  otherwise; the first sentence names the action as \<^verbatim>\<open>The action "<display_bulk>"\<close> and
  the later ones say \<^verbatim>\<open>It\<close>. The counts (2, 1, 0) for "Power on" give the message of the
  specification.
\<close>

theorem message_from_form_stats_sentences:
  "message_from_form_stats action done not_actionable not_permitted =
     join '' '' (spec_sentences action done not_actionable not_permitted)
   \<and> message_from_form_stats \<lparr>display_bulk = ''Power on''\<rparr> 2 1 0 =
     ''The action \"Power on\" was successfully performed on 2 nodes. It could not be performed on 1 node because its state does not allow that action.''"
proof
  show "message_from_form_stats action done not_actionable not_permitted =
     join '' '' (spec_sentences action done not_actionable not_permitted)"
    by (simp only: message_from_form_stats_def spec_sentences_def Let_def message_loop_three)
next
  show "message_from_form_stats \<lparr>display_bulk = ''Power on''\<rparr> 2 1 0 =
     ''The action \"Power on\" was successfully performed on 2 nodes. It could not be performed on 1 node because its state does not allow that action.''"
    by (rule power_on_example)
qed


section \<open>Properties of constraint parsing\<close>

lemma split_run_no_space:
  "\<not> list_ex isspace w \<Longrightarrow> split_run cur w = (if cur @ w = [] then [] else [cur @ w])"
  by (induction w arbitrary: cur) auto

lemma split_run_space:
  "isspace c \<Longrightarrow> split_run cur (a @ c # b) = split_run cur a @ split_ws b"
  by (induction a arbitrary: cur) (auto simp: split_ws_def)

lemma split_ws_Nil: "split_ws [] = []"
  by (simp add: split_ws_def)

lemma split_ws_word: "w \<noteq> [] \<Longrightarrow> \<not> list_ex isspace w \<Longrightarrow> split_ws w = [w]"
  by (simp add: split_ws_def split_run_no_space)

lemma split_ws_space: "isspace c \<Longrightarrow> split_ws (a @ c # b) = split_ws a @ split_ws b"
  by (simp add: split_ws_def split_run_space [unfolded split_ws_def])

lemma split_ws_all_space: "list_all isspace s \<Longrightarrow> split_ws s = []"
  by (induction s) (auto simp: split_ws_def)

lemma split_ws_dropWhile: "split_ws (dropWhile isspace s) = split_ws s"
  by (induction s) (auto simp: split_ws_def)

lemma split_ws_append_space: "list_all isspace t \<Longrightarrow> split_ws (a @ t) = split_ws a"
proof (cases t)
  case Nil
  then show ?thesis by simp
next
  case (Cons c t')
  assume "list_all isspace t"
  with Cons have "isspace c" "list_all isspace t'" by simp_all
  then show ?thesis using Cons by (simp add: split_ws_space split_ws_all_space)
qed

lemma split_ws_rev_dropWhile: "split_ws (rev (dropWhile isspace (rev s))) = split_ws s"
proof -
  have "rev s = takeWhile isspace (rev s) @ dropWhile isspace (rev s)" by simp
  then have "s = rev (dropWhile isspace (rev s)) @ rev (takeWhile isspace (rev s))"
    by (metis rev_append rev_rev_ident)
  moreover have "list_all isspace (rev (takeWhile isspace (rev s)))"
    by (simp add: list_all_iff) (meson set_takeWhileD)
  ultimately show ?thesis by (metis split_ws_append_space)
qed

lemma split_ws_strip: "split_ws (strip s) = split_ws s"
  by (simp add: strip_def split_ws_rev_dropWhile split_ws_dropWhile)

lemma split_run_tokens:
  "\<forall>c\<in>set cur. \<not> isspace c \<Longrightarrow>
     \<forall>w\<in>set (split_run cur s). w \<noteq> [] \<and> (\<forall>c\<in>set w. \<not> isspace c)"
proof (induction s arbitrary: cur)
  case Nil
  then show ?case by simp
next
  case (Cons a s)
  have empty: "\<forall>w\<in>set (split_run [] s). w \<noteq> [] \<and> (\<forall>c\<in>set w. \<not> isspace c)"
    by (rule Cons.IH) simp
  show ?case
  proof (cases "isspace a")
    case True
    then show ?thesis using empty Cons.prems by simp
  next
    case False
    then have "\<forall>c\<in>set (cur @ [a]). \<not> isspace c" using Cons.prems by simp
    then have "\<forall>w\<in>set (split_run (cur @ [a]) s). w \<noteq> [] \<and> (\<forall>c\<in>set w. \<not> isspace c)"
      by (rule Cons.IH)
    then show ?thesis using False by simp
  qed
qed

lemma split_ws_tokens:
  "w \<in> set (split_ws s) \<Longrightarrow> w \<noteq> [] \<and> (\<forall>c\<in>set w. \<not> isspace c)"
  using split_run_tokens [of "[]" s] by (simp add: split_ws_def)


lemma split_eq1_bare: "CHR ''='' \<notin> set word \<Longrightarrow> split_eq1 word = [word]"
proof -
  assume "CHR ''='' \<notin> set word"
  then have "dropWhile (\<lambda>c. c \<noteq> CHR ''='') word = []" by (auto simp: dropWhile_eq_Nil_conv)
  then show ?thesis by (simp only: split_eq1_def list.case)
qed

lemma split_eq1_pair:
  assumes "CHR ''='' \<in> set word"
  shows "split_eq1 word = [takeWhile (\<lambda>c. c \<noteq> CHR ''='') word, token_value word]"
    and "takeWhile (\<lambda>c. c \<noteq> CHR ''='') word @ ''='' @ token_value word = word"
proof -
  have ne: "dropWhile (\<lambda>c. c \<noteq> CHR ''='') word \<noteq> []"
    using assms by (simp add: dropWhile_eq_Nil_conv)
  then have "\<not> (hd (dropWhile (\<lambda>c. c \<noteq> CHR ''='') word) \<noteq> CHR ''='')"
    by (rule hd_dropWhile)
  with ne obtain rest where d: "dropWhile (\<lambda>c. c \<noteq> CHR ''='') word = CHR ''='' # rest"
    by (cases "dropWhile (\<lambda>c. c \<noteq> CHR ''='') word") simp_all
  then show "split_eq1 word = [takeWhile (\<lambda>c. c \<noteq> CHR ''='') word, token_value word]"
    by (simp add: split_eq1_def token_value_def)
  have "takeWhile (\<lambda>c. c \<noteq> CHR ''='') word @ dropWhile (\<lambda>c. c \<noteq> CHR ''='') word = word"
    by simp
  then show "takeWhile (\<lambda>c. c \<noteq> CHR ''='') word @ ''='' @ token_value word = word"
    using d by (simp add: token_value_def)
qed

lemma constraints_loop_step:
  "constraints_loop (w # ws) acc = constraints_loop ws (acc @ spec_constraint w)"
proof (cases "CHR ''='' \<in> set w")
  case False
  then show ?thesis
    by (simp add: split_eq1_bare spec_constraint_def)
next
  case True
  note parts = split_eq1_pair(1) [OF True]
  have whole: "takeWhile (\<lambda>c. c \<noteq> CHR ''='') w @ ''='' @ token_value w = w"
    by (rule split_eq1_pair(2) [OF True])
  show ?thesis
  proof (cases "token_value w = ''any''")
    case any: True
    have "constraints_loop (w # ws) acc = constraints_loop ws acc"
      by (simp add: parts any)
    then show ?thesis using True any by (simp add: spec_constraint_def)
  next
    case other: False
    have "constraints_loop (w # ws) acc =
        constraints_loop ws (acc @ [takeWhile (\<lambda>c. c \<noteq> CHR ''='') w @ ''='' @ token_value w])"
      using other by (simp add: parts)
    then have "constraints_loop (w # ws) acc = constraints_loop ws (acc @ [w])"
      by (simp only: whole)
    then show ?thesis using True other by (simp add: spec_constraint_def)
  qed
qed

lemma constraints_loop_spec:
  "constraints_loop ws acc = acc @ concat (map spec_constraint ws)"
proof (induction ws arbitrary: acc)
  case Nil
  then show ?case by simp
next
  case (Cons w ws)
  show ?case by (simp only: constraints_loop_step Cons.IH) simp
qed

lemma constraints_of_example:
  "constraints_of ''zone=rack1 memory=any arch='' = [''zone=rack1'', ''arch='']"
  by (simp add: constraints_of_def split_ws_def strip_def isspace_def split_eq1_def)

text \<open>
  C3. For every query string, the constraints are those of its whitespace-separated
  tokens, in order: each token is a maximal run without whitespace (so it is not empty
  and holds no whitespace); a bare token \<^verbatim>\<open>key\<close> gives \<^verbatim>\<open>key=\<close>, a token whose value
  (the text after its first \<^verbatim>\<open>=\<close>) is exactly \<^verbatim>\<open>any\<close> gives nothing, and any other token
  is kept as it is. \<^verbatim>\<open>QueryDict\<close> receives these constraints joined by \<^verbatim>\<open>&\<close>. Parsing
  \<^verbatim>\<open>zone=rack1 memory=any arch=\<close> keeps \<^verbatim>\<open>zone=rack1\<close> and \<^verbatim>\<open>arch=\<close> and discards the
  memory token.
\<close>

theorem parse_constraints_tokens:
  "constraints_of query_string = concat (map spec_constraint (split_ws query_string))
   \<and> (\<forall>word\<in>set (split_ws query_string). word \<noteq> [] \<and> (\<forall>c\<in>set word. \<not> isspace c))
   \<and> parse_constraints QueryDict query_string =
       QueryDict (join ''&'' (concat (map spec_constraint (split_ws query_string))))
   \<and> constraints_of ''zone=rack1 memory=any arch='' = [''zone=rack1'', ''arch='']"
proof -
  have eq: "constraints_of query_string = concat (map spec_constraint (split_ws query_string))"
    by (simp add: constraints_of_def constraints_loop_spec split_ws_strip)
  moreover have "\<forall>word\<in>set (split_ws query_string). word \<noteq> [] \<and> (\<forall>c\<in>set word. \<not> isspace c)"
    using split_ws_tokens by blast
  moreover have "parse_constraints QueryDict query_string =
       QueryDict (join ''&'' (concat (map spec_constraint (split_ws query_string))))"
    by (simp only: parse_constraints_def eq)
  ultimately show ?thesis using constraints_of_example by blast
qed

theorem parse_constraints_tokens_witness:
  "split_ws ''  zone=rack1   arch =any a=b=any x=anyy '' =
     [''zone=rack1'', ''arch'', ''=any'', ''a=b=any'', ''x=anyy'']
   \<and> constraints_of ''  zone=rack1   arch =any a=b=any x=anyy '' =
     [''zone=rack1'', ''arch='', ''a=b=any'', ''x=anyy'']
   \<and> parse_constraints id ''  zone=rack1   arch =any a=b=any x=anyy '' =
     ''zone=rack1&arch=&a=b=any&x=anyy''"
  using parse_constraints_tokens [of "''  zone=rack1   arch =any a=b=any x=anyy ''" id]
  by (simp add: parse_constraints_def split_ws_def isspace_def spec_constraint_def
      token_value_def)


section \<open>Properties of the node listing's filter\<close>

text \<open>
  C4. When the form rejects the constraints, \<^verbatim>\<open>_constrain_nodes\<close> returns no node and
  sets \<^verbatim>\<open>query_error\<close> to the errors by field, each as \<^verbatim>\<open>field: error, error\<close>, joined
  by commas; when the form accepts them, it returns what the form's \<^verbatim>\<open>filter_nodes\<close>
  makes of the nodes and leaves \<^verbatim>\<open>query_error\<close> as it is.
\<close>

theorem constrain_nodes_fail_closed:
  "(\<not> is_valid (Strict (parse_constraints QueryDict (query self))) \<longrightarrow>
      constrain_nodes QueryDict Strict self nodes_query =
        ([], self\<lparr>query_error :=
               Some (join '', ''
                 (map (\<lambda>(field, errors). field @ '': '' @ join '', '' errors)
                   (errors (Strict (parse_constraints QueryDict (query self))))))\<rparr>))
   \<and> (is_valid (Strict (parse_constraints QueryDict (query self))) \<longrightarrow>
      constrain_nodes QueryDict Strict self nodes_query =
        (filter_nodes (Strict (parse_constraints QueryDict (query self))) nodes_query, self))"
  by (simp add: constrain_nodes_def Let_def)

theorem constrain_nodes_fail_closed_witness:
  "constrain_nodes id
      (\<lambda>data. \<lparr>is_valid = (data = ''zone=rack1''),
            errors = (if data = ''zone=rack1'' then []
                      else [(''arch'', [''Unknown arch'', ''Required'']), (''mem'', [''Bad''])]),
            filter_nodes = filter (\<lambda>n. n < 2)\<rparr>)
      \<lparr>query = ''arch= mem'', query_error = None\<rparr> [1, 2, 3 :: nat]
    = ([], \<lparr>query = ''arch= mem'', query_error = Some ''arch: Unknown arch, Required, mem: Bad''\<rparr>)
   \<and> constrain_nodes id
      (\<lambda>data. \<lparr>is_valid = (data = ''zone=rack1''),
            errors = (if data = ''zone=rack1'' then []
                      else [(''arch'', [''Unknown arch'', ''Required'']), (''mem'', [''Bad''])]),
            filter_nodes = filter (\<lambda>n. n < 2)\<rparr>)
      \<lparr>query = ''zone=rack1 mem=any'', query_error = None\<rparr> [1, 2, 3 :: nat]
    = ([1], \<lparr>query = ''zone=rack1 mem=any'', query_error = None\<rparr>)"
  using constrain_nodes_fail_closed
    [of "(\<lambda>data. \<lparr>is_valid = (data = ''zone=rack1''),
            errors = (if data = ''zone=rack1'' then []
                      else [(''arch'', [''Unknown arch'', ''Required'']), (''mem'', [''Bad''])]),
            filter_nodes = filter (\<lambda>n. n < 2)\<rparr>)" id
        "\<lparr>query = ''arch= mem'', query_error = None\<rparr>" "[1, 2, 3 :: nat]"]
  by (simp add: constrain_nodes_def parse_constraints_def constraints_of_def split_ws_def
      strip_def isspace_def split_eq1_def)


section \<open>Properties of the deletion view\<close>

text \<open>
  C2. A node whose status is ALLOCATED is never returned for deletion: when the lookup
  with the ADMIN permission yields such a node, \<^verbatim>\<open>get_object\<close> raises
  \<^verbatim>\<open>PermissionDenied\<close>; whatever \<^verbatim>\<open>get_object\<close> returns is the node that the lookup yielded
  and is not ALLOCATED.
\<close>

theorem NodeDelete_get_object_allocated:
  "(get_node_or_404 kwargs_system_id user ADMIN = Inr n \<and> status n = ALLOCATED \<longrightarrow>
      NodeDelete_get_object get_node_or_404 kwargs_system_id user = Inl PermissionDenied)
   \<and> (NodeDelete_get_object get_node_or_404 kwargs_system_id user = Inr n' \<longrightarrow>
      status n' \<noteq> ALLOCATED \<and> get_node_or_404 kwargs_system_id user ADMIN = Inr n')"
  by (auto simp: NodeDelete_get_object_def split: sum.splits if_splits)

theorem NodeDelete_get_object_allocated_witness:
  "NodeDelete_get_object (\<lambda>_ _ _. Inr \<lparr>system_id = ''node-1'', status = ALLOCATED\<rparr>)
      (Some ''node-1'') ''admin'' = Inl PermissionDenied
   \<and> NodeDelete_get_object (\<lambda>_ _ _. Inr \<lparr>system_id = ''node-1'', status = READY\<rparr>)
      (Some ''node-1'') ''admin'' = Inr \<lparr>system_id = ''node-1'', status = READY\<rparr>"
  using NodeDelete_get_object_allocated
    [of "\<lambda>_ _ _. Inr \<lparr>system_id = ''node-1'', status = ALLOCATED\<rparr>" "Some ''node-1''"
        "''admin''" "\<lparr>system_id = ''node-1'', status = ALLOCATED\<rparr>"]
  by (simp add: NodeDelete_get_object_def)


section \<open>Properties of the owner-data migration\<close>

lemma while_new_key_in_notin: "while_new_key_in ks k |\<notin>| ks"
  by (induction ks k rule: while_new_key_in.induct) (subst while_new_key_in.simps, simp)

lemma while_new_key_in_replicate:
  "\<exists>n. while_new_key_in ks k = k @ replicate n (CHR ''_'')
       \<and> (\<forall>m<n. k @ replicate m (CHR ''_'') |\<in>| ks)"
proof (induction ks k rule: while_new_key_in.induct)
  case (1 ks k)
  show ?case
  proof (cases "k |\<in>| ks")
    case False
    then have "while_new_key_in ks k = k @ replicate 0 (CHR ''_'')"
      by (subst while_new_key_in.simps) simp
    then show ?thesis by blast
  next
    case True
    from 1 [OF True] obtain n where
      n: "while_new_key_in ks (k @ ''_'') = (k @ ''_'') @ replicate n (CHR ''_'')"
         "\<forall>m<n. (k @ ''_'') @ replicate m (CHR ''_'') |\<in>| ks"
      by blast
    have "while_new_key_in ks k = k @ replicate (Suc n) (CHR ''_'')"
      using True n(1) by (subst while_new_key_in.simps) simp
    moreover have "k @ replicate m (CHR ''_'') |\<in>| ks" if "m < Suc n" for m
    proof (cases m)
      case 0
      then show ?thesis using True by simp
    next
      case (Suc j)
      then show ?thesis using n(2) that by simp
    qed
    ultimately show ?thesis by blast
  qed
qed

lemma keys_of_node_append:
  "keys_of_node n (xs @ ys) = keys_of_node n xs |\<union>| keys_of_node n ys"
  by (simp add: keys_of_node_def)

lemma keys_of_node_Cons:
  "keys_of_node n (e # ys) =
     (if node_id e = n then finsert (key e) (keys_of_node n ys) else keys_of_node n ys)"
  by (simp add: keys_of_node_def)

lemma keys_of_node_Nil: "keys_of_node n [] = {||}"
  by (simp add: keys_of_node_def)

lemma keys_of_node_iff:
  "k |\<in>| keys_of_node n rows \<longleftrightarrow> (n, k) \<in> (\<lambda>e. (node_id e, key e)) ` set rows"
  by (auto simp: keys_of_node_def fset_of_list.rep_eq)

lemma key_notin_others:
  assumes "unique_keys (saved @ entry # rest)"
  shows "key entry |\<notin>| keys_of_node (node_id entry) (saved @ rest)"
  using assms by (auto simp: unique_keys_def keys_of_node_iff)

lemma unique_keys_update:
  assumes "unique_keys (saved @ entry # rest)"
      and "k |\<notin>| keys_of_node (node_id entry) (saved @ rest)"
  shows "unique_keys ((saved @ [entry\<lparr>key := k\<rparr>]) @ rest)"
  using assms by (auto simp: unique_keys_def keys_of_node_iff)

lemma fix_loop_rewrite_keys:
  assumes "unique_keys (saved @ rest)"
      and "\<forall>e\<in>set rest. existing (node_id e) = Some (keys_of_node (node_id e) (saved @ rest))"
  shows "fix_loop locale_alnum rest existing = Inr (rewrite_keys locale_alnum saved rest)"
  using assms
proof (induction rest arbitrary: saved existing)
  case Nil
  then show ?case by simp
next
  case (Cons entry rest)
  let ?n = "node_id entry"
  show ?case
  proof (cases "key_regex locale_alnum (key entry)")
    case True
    have "fix_loop locale_alnum rest existing
        = Inr (rewrite_keys locale_alnum (saved @ [entry]) rest)"
      using Cons.prems by (intro Cons.IH) simp_all
    then show ?thesis using True by simp
  next
    case False
    let ?others = "keys_of_node ?n (saved @ rest)"
    let ?new = "while_new_key_in ?others (REPLACE_RE_sub (key entry))"
    let ?entry' = "entry\<lparr>key := ?new\<rparr>"
    have ex: "existing ?n = Some (keys_of_node ?n (saved @ entry # rest))"
      using Cons.prems(2) by simp
    have all: "keys_of_node ?n (saved @ entry # rest) = finsert (key entry) ?others"
      by (auto simp: keys_of_node_append keys_of_node_Cons)
    have notin: "key entry |\<notin>| ?others"
      using Cons.prems(1) by (rule key_notin_others)
    then have minus: "finsert (key entry) ?others |-| {|key entry|} = ?others"
      by auto
    have uniq: "unique_keys ((saved @ [?entry']) @ rest)"
      using Cons.prems(1) while_new_key_in_notin by (rule unique_keys_update)
    have inv: "\<forall>e\<in>set rest. (existing(?n \<mapsto> finsert ?new ?others)) (node_id e)
        = Some (keys_of_node (node_id e) ((saved @ [?entry']) @ rest))"
      using Cons.prems(2)
      by (auto simp: keys_of_node_append keys_of_node_Cons keys_of_node_Nil)
    have "fix_loop locale_alnum rest (existing(?n \<mapsto> finsert ?new ?others))
        = Inr (rewrite_keys locale_alnum (saved @ [?entry']) rest)"
      using uniq inv by (rule Cons.IH)
    then show ?thesis
      using False ex all minus by (simp add: Let_def)
  qed
qed

lemma fix_ownerdata_keys_rewrite:
  assumes "unique_keys rows"
  shows "fix_ownerdata_keys locale_alnum rows = Inr (rewrite_keys locale_alnum [] rows)"
  unfolding fix_ownerdata_keys_def
  using assms by (intro fix_loop_rewrite_keys) (simp_all add: existing_node_keys_def)

text \<open>
  What the rewriting achieves when the database's \<^verbatim>\<open>\w\<close> accepts every character that
  Python's does: the keys of each node stay distinct, and every key is empty or matches.
\<close>

lemma underscore_db_word_char: "db_word_char locale_alnum (CHR ''_'')"
  by (simp add: db_word_char_def ascii_word_char_def code_point_def)

lemma key_regex_sub:
  assumes "\<forall>c. py_word_char c \<longrightarrow> db_word_char locale_alnum c"
  shows "key_regex locale_alnum (REPLACE_RE_sub k) \<longleftrightarrow> k \<noteq> []"
  using assms underscore_db_word_char [of locale_alnum]
  by (auto simp: key_regex_def REPLACE_RE_sub_def list_all_iff)

lemma key_regex_while:
  "key_regex locale_alnum k \<Longrightarrow> key_regex locale_alnum (while_new_key_in ks k)"
proof (induction ks k rule: while_new_key_in.induct)
  case (1 ks k)
  show ?case
  proof (cases "k |\<in>| ks")
    case True
    have "key_regex locale_alnum (k @ ''_'')"
      using "1.prems" underscore_db_word_char [of locale_alnum] by (simp add: key_regex_def)
    with True have "key_regex locale_alnum (while_new_key_in ks (k @ ''_''))"
      by (rule "1.IH")
    then show ?thesis using True by (subst while_new_key_in.simps) simp
  next
    case False
    then show ?thesis using "1.prems" by (subst while_new_key_in.simps) simp
  qed
qed

lemma while_new_key_in_empty:
  "while_new_key_in ks k = [] \<longleftrightarrow> k = [] \<and> [] |\<notin>| ks"
proof -
  obtain n where n: "while_new_key_in ks k = k @ replicate n (CHR ''_'')"
     and below: "\<forall>m<n. k @ replicate m (CHR ''_'') |\<in>| ks"
    using while_new_key_in_replicate by blast
  show ?thesis
  proof
    assume e: "while_new_key_in ks k = []"
    then have "k = []" using n by simp
    moreover have "[] |\<notin>| ks" using while_new_key_in_notin [of ks k] e by simp
    ultimately show "k = [] \<and> [] |\<notin>| ks" by simp
  next
    assume "k = [] \<and> [] |\<notin>| ks"
    then show "while_new_key_in ks k = []" by (subst while_new_key_in.simps) simp
  qed
qed

lemma rewrite_keys_invariant:
  assumes agree: "\<forall>c. py_word_char c \<longrightarrow> db_word_char locale_alnum c"
      and "unique_keys (saved @ rest)"
  shows "unique_keys (saved @ rewrite_keys locale_alnum saved rest)
     \<and> (\<forall>e\<in>set (rewrite_keys locale_alnum saved rest).
          key e = [] \<or> key_regex locale_alnum (key e))
     \<and> map node_id (rewrite_keys locale_alnum saved rest) = map node_id rest"
  using assms(2)
proof (induction rest arbitrary: saved)
  case Nil
  then show ?case by simp
next
  case (Cons entry rest)
  let ?others = "keys_of_node (node_id entry) (saved @ rest)"
  let ?new = "while_new_key_in ?others (REPLACE_RE_sub (key entry))"
  let ?entry' = "if key_regex locale_alnum (key entry) then entry else entry\<lparr>key := ?new\<rparr>"
  have uniq: "unique_keys ((saved @ [?entry']) @ rest)"
  proof (cases "key_regex locale_alnum (key entry)")
    case True
    then show ?thesis using Cons.prems by simp
  next
    case False
    have "unique_keys ((saved @ [entry\<lparr>key := ?new\<rparr>]) @ rest)"
      using Cons.prems while_new_key_in_notin by (rule unique_keys_update)
    then show ?thesis using False by simp
  qed
  have ok: "key ?entry' = [] \<or> key_regex locale_alnum (key ?entry')"
  proof (cases "key_regex locale_alnum (key entry)")
    case True
    then show ?thesis by simp
  next
    case False
    show ?thesis
    proof (cases "key entry = []")
      case True
      then have "?new = []"
        using key_notin_others [OF Cons.prems]
        by (simp add: while_new_key_in_empty REPLACE_RE_sub_def)
      then show ?thesis using False by simp
    next
      case nonempty: False
      then have "key_regex locale_alnum (REPLACE_RE_sub (key entry))"
        using agree by (simp add: key_regex_sub)
      then have "key_regex locale_alnum ?new" by (rule key_regex_while)
      then show ?thesis using False by simp
    qed
  qed
  have nid: "node_id ?entry' = node_id entry" by simp
  from Cons.IH [OF uniq] have
    ih1: "unique_keys ((saved @ [?entry']) @ rewrite_keys locale_alnum (saved @ [?entry']) rest)"
    and ih2: "\<forall>e\<in>set (rewrite_keys locale_alnum (saved @ [?entry']) rest).
          key e = [] \<or> key_regex locale_alnum (key e)"
    and ih3: "map node_id (rewrite_keys locale_alnum (saved @ [?entry']) rest) = map node_id rest"
    by blast+
  have step: "rewrite_keys locale_alnum saved (entry # rest)
      = ?entry' # rewrite_keys locale_alnum (saved @ [?entry']) rest"
    by (simp add: Let_def)
  show ?case
    unfolding step using ih1 ih2 ih3 ok nid by simp
qed

lemma fix_ownerdata_keys_invariant:
  assumes "\<forall>c. py_word_char c \<longrightarrow> db_word_char locale_alnum c"
      and "unique_keys rows"
  shows "\<exists>rows'. fix_ownerdata_keys locale_alnum rows = Inr rows' \<and> unique_keys rows'
     \<and> (\<forall>e\<in>set rows'. key e = [] \<or> key_regex locale_alnum (key e))
     \<and> map node_id rows' = map node_id rows"
  using fix_ownerdata_keys_rewrite [OF assms(2), of locale_alnum]
    rewrite_keys_invariant [OF assms(1), of "[]" rows] assms(2)
  by simp

lemma bad_key_example:
  "fix_ownerdata_keys locale_alnum
     [\<lparr>node_id = 1, key = ''bad key!''\<rparr>, \<lparr>node_id = 1, key = ''bad_key_''\<rparr>]
   = Inr [\<lparr>node_id = 1, key = ''bad_key__''\<rparr>, \<lparr>node_id = 1, key = ''bad_key_''\<rparr>]"
  by (simp add: fix_ownerdata_keys_def existing_node_keys_def keys_of_node_def key_regex_def
      db_word_char_def py_word_char_def ascii_word_char_def in_range_def code_point_def
      REPLACE_RE_sub_def while_new_key_in.simps)

text \<open>
  C5. On a table in which no node has two rows with the same key, and whatever the locale
  of the database, the migration raises nothing and rewrites exactly as the specification
  says: a row whose key matches \<^verbatim>\<open>^[\w.-]+$\<close> is left alone; any other row gets its key
  with each character outside \<^verbatim>\<open>[\w.-]\<close> (as Python reads it) replaced by an underscore,
  then underscores appended while the key is among the keys that the other rows of the
  same node have at that moment. The appending loop returns the key followed by the least
  number of underscores that makes it differ from all of these. The key \<^verbatim>\<open>bad key!\<close>
  beside \<^verbatim>\<open>bad_key_\<close> on the same node becomes \<^verbatim>\<open>bad_key__\<close>.
\<close>

theorem fix_ownerdata_keys_rewrites:
  assumes "unique_keys rows"
  shows "fix_ownerdata_keys locale_alnum rows = Inr (rewrite_keys locale_alnum [] rows)
     \<and> (\<forall>node_keys k. \<exists>n.
           while_new_key_in node_keys k = k @ replicate n (CHR ''_'')
           \<and> while_new_key_in node_keys k |\<notin>| node_keys
           \<and> (\<forall>m<n. k @ replicate m (CHR ''_'') |\<in>| node_keys))
     \<and> fix_ownerdata_keys locale_alnum
          [\<lparr>node_id = 1, key = ''bad key!''\<rparr>, \<lparr>node_id = 1, key = ''bad_key_''\<rparr>]
        = Inr [\<lparr>node_id = 1, key = ''bad_key__''\<rparr>, \<lparr>node_id = 1, key = ''bad_key_''\<rparr>]"
proof -
  have "fix_ownerdata_keys locale_alnum rows = Inr (rewrite_keys locale_alnum [] rows)"
    using assms by (rule fix_ownerdata_keys_rewrite)
  moreover have "\<exists>n. while_new_key_in node_keys k = k @ replicate n (CHR ''_'')
           \<and> while_new_key_in node_keys k |\<notin>| node_keys
           \<and> (\<forall>m<n. k @ replicate m (CHR ''_'') |\<in>| node_keys)" for node_keys k
    using while_new_key_in_replicate [of node_keys k] while_new_key_in_notin [of node_keys k]
    by blast
  ultimately show ?thesis using bad_key_example [of locale_alnum] by blast
qed

text \<open>
  A table with Latin-1 keys, in a database whose \<^verbatim>\<open>\w\<close> agrees with Python's: the key
  made of the character 0xE9 (e with an acute accent), a space and \<^verbatim>\<open>b\<close> keeps its
  first character, which is a word character, and has only its space replaced; the key
  that is the character 0xE9 alone matches and is left as it is.
\<close>

theorem fix_ownerdata_keys_rewrites_witness:
  "unique_keys [\<lparr>node_id = 1, key = ''a b''\<rparr>, \<lparr>node_id = 1, key = ''a!b''\<rparr>,
                \<lparr>node_id = 2, key = ''a!b''\<rparr>, \<lparr>node_id = 1, key = ''a_b''\<rparr>,
                \<lparr>node_id = 1, key = [CHR 0xE9, CHR '' '', CHR ''b'']\<rparr>,
                \<lparr>node_id = 1, key = [CHR 0xE9]\<rparr>]
   \<and> fix_ownerdata_keys py_word_char
        [\<lparr>node_id = 1, key = ''a b''\<rparr>, \<lparr>node_id = 1, key = ''a!b''\<rparr>,
         \<lparr>node_id = 2, key = ''a!b''\<rparr>, \<lparr>node_id = 1, key = ''a_b''\<rparr>,
         \<lparr>node_id = 1, key = [CHR 0xE9, CHR '' '', CHR ''b'']\<rparr>,
         \<lparr>node_id = 1, key = [CHR 0xE9]\<rparr>]
      = Inr [\<lparr>node_id = 1, key = ''a_b_''\<rparr>, \<lparr>node_id = 1, key = ''a_b__''\<rparr>,
             \<lparr>node_id = 2, key = ''a_b''\<rparr>, \<lparr>node_id = 1, key = ''a_b''\<rparr>,
             \<lparr>node_id = 1, key = [CHR 0xE9, CHR ''_'', CHR ''b'']\<rparr>,
             \<lparr>node_id = 1, key = [CHR 0xE9]\<rparr>]"
proof -
  have u: "unique_keys [\<lparr>node_id = 1, key = ''a b''\<rparr>, \<lparr>node_id = 1, key = ''a!b''\<rparr>,
                \<lparr>node_id = 2, key = ''a!b''\<rparr>, \<lparr>node_id = 1, key = ''a_b''\<rparr>,
                \<lparr>node_id = 1, key = [CHR 0xE9, CHR '' '', CHR ''b'']\<rparr>,
                \<lparr>node_id = 1, key = [CHR 0xE9]\<rparr>]"
    by (simp add: unique_keys_def)
  have "rewrite_keys py_word_char []
        [\<lparr>node_id = 1, key = ''a b''\<rparr>, \<lparr>node_id = 1, key = ''a!b''\<rparr>,
         \<lparr>node_id = 2, key = ''a!b''\<rparr>, \<lparr>node_id = 1, key = ''a_b''\<rparr>,
         \<lparr>node_id = 1, key = [CHR 0xE9, CHR '' '', CHR ''b'']\<rparr>,
         \<lparr>node_id = 1, key = [CHR 0xE9]\<rparr>]
     = [\<lparr>node_id = 1, key = ''a_b_''\<rparr>, \<lparr>node_id = 1, key = ''a_b__''\<rparr>,
        \<lparr>node_id = 2, key = ''a_b''\<rparr>, \<lparr>node_id = 1, key = ''a_b''\<rparr>,
        \<lparr>node_id = 1, key = [CHR 0xE9, CHR ''_'', CHR ''b'']\<rparr>,
        \<lparr>node_id = 1, key = [CHR 0xE9]\<rparr>]"
    by (simp add: keys_of_node_def key_regex_def db_word_char_def py_word_char_def
        ascii_word_char_def in_range_def code_point_def REPLACE_RE_sub_def
        while_new_key_in.simps)
  then show ?thesis
    using u fix_ownerdata_keys_rewrites [OF u, of py_word_char, THEN conjunct1] by simp
qed

text \<open>
  C6. An empty key is selected by the query, since it does not match
  \<^verbatim>\<open>^[\w.-]+$\<close>, but nothing is replaced in it and it collides with no other key: it is
  saved as it was, and still does not match, whatever the locale of the database. Apart
  from empty keys, the migration does what it is meant to when the database's \<^verbatim>\<open>\w\<close>
  accepts what Python's does (\<open>fix_ownerdata_keys_invariant\<close>).
\<close>

theorem fix_ownerdata_keys_empty_key:
  "fix_ownerdata_keys locale_alnum [\<lparr>node_id = 1, key = ''''\<rparr>]
     = Inr [\<lparr>node_id = 1, key = ''''\<rparr>]
   \<and> \<not> key_regex locale_alnum ''''"
  by (simp add: fix_ownerdata_keys_def existing_node_keys_def keys_of_node_def key_regex_def
        REPLACE_RE_sub_def while_new_key_in.simps)


section \<open>Properties of the unique index\<close>

lemma distinct_map_filter_nth:
  assumes d: "distinct (map f (filter P xs))"
      and i: "i < j" and j: "j < length xs"
      and Pi: "P (xs ! i)" and Pj: "P (xs ! j)"
  shows "f (xs ! i) \<noteq> f (xs ! j)"
proof
  assume eq: "f (xs ! i) = f (xs ! j)"
  have il: "i < length xs" using i j by simp
  have xs: "xs = take i xs @ xs ! i # drop (Suc i) xs"
    using il by (rule id_take_nth_drop)
  have "xs ! j = drop (Suc i) xs ! (j - Suc i)"
    using i j by simp
  moreover have "j - Suc i < length (drop (Suc i) xs)"
    using i j by simp
  ultimately have mem: "xs ! j \<in> set (drop (Suc i) xs)"
    by (metis nth_mem)
  have "distinct (map f (filter P (take i xs @ xs ! i # drop (Suc i) xs)))"
    using d xs by simp
  then have "f (xs ! i) \<notin> f ` set (filter P (drop (Suc i) xs))"
    using Pi by simp
  moreover have "f (xs ! j) \<in> f ` set (filter P (drop (Suc i) xs))"
    using mem Pj by simp
  ultimately show False using eq by simp
qed

text \<open>
  C7, as amended. The index is unique over the pair of \<^verbatim>\<open>power_type\<close> and the md5 hash
  of \<^verbatim>\<open>power_parameters\<close>, for the rows whose \<^verbatim>\<open>power_type\<close> is not \<^verbatim>\<open>manual\<close>: a table
  with two rows of the same \<^verbatim>\<open>power_type\<close> other than \<^verbatim>\<open>manual\<close> whose parameters have
  the same hash (as equal parameters do) violates it. Rows of type \<^verbatim>\<open>manual\<close> are outside
  the index: two of them with the same parameters coexist, whatever the hash function.
\<close>

theorem power_type_parameters_idx_unique:
  assumes "i < length rows" and "j < length rows" and "i \<noteq> j"
      and "power_type (rows ! i) \<noteq> ''manual''"
      and "power_type (rows ! i) = power_type (rows ! j)"
      and "md5 (power_parameters (rows ! i)) = md5 (power_parameters (rows ! j))"
  shows "\<not> power_type_parameters_idx md5 rows"
proof
  assume idx: "power_type_parameters_idx md5 rows"
  then have d: "distinct (map (index_key md5) (filter (\<lambda>r. power_type r \<noteq> ''manual'') rows))"
    by (simp add: power_type_parameters_idx_def indexed_rows_def)
  have keys: "index_key md5 (rows ! i) = index_key md5 (rows ! j)"
    using assms(5,6) by (simp add: index_key_def)
  have Pj: "power_type (rows ! j) \<noteq> ''manual''" using assms(4,5) by simp
  show False
  proof (cases "i < j")
    case True
    from distinct_map_filter_nth [OF d True assms(2) assms(4) Pj] keys show False by simp
  next
    case False
    then have "j < i" using assms(3) by simp
    from distinct_map_filter_nth [OF d this assms(1) Pj assms(4)] keys show False by simp
  qed
qed

theorem power_type_parameters_idx_unique_witness:
  "\<not> power_type_parameters_idx id
       [\<lparr>power_type = ''ipmi'', power_parameters = ''{\"power_address\": \"10.0.0.1\"}''\<rparr>,
        \<lparr>power_type = ''virsh'', power_parameters = ''{}''\<rparr>,
        \<lparr>power_type = ''ipmi'', power_parameters = ''{\"power_address\": \"10.0.0.1\"}''\<rparr>]"
  using power_type_parameters_idx_unique [of 0
       "[\<lparr>power_type = ''ipmi'', power_parameters = ''{\"power_address\": \"10.0.0.1\"}''\<rparr>,
        \<lparr>power_type = ''virsh'', power_parameters = ''{}''\<rparr>,
        \<lparr>power_type = ''ipmi'', power_parameters = ''{\"power_address\": \"10.0.0.1\"}''\<rparr>]" 2 id]
  by simp

theorem power_type_parameters_idx_manual_counterexample:
  "power_type_parameters_idx id
     [\<lparr>power_type = ''manual'', power_parameters = ''{}''\<rparr>,
      \<lparr>power_type = ''manual'', power_parameters = ''{}''\<rparr>]"
  by (simp add: power_type_parameters_idx_def indexed_rows_def)

text \<open>
  The hash function plays no part in it: a table of \<^verbatim>\<open>manual\<close> rows satisfies the index
  for every \<open>md5\<close>.
\<close>

lemma power_type_parameters_idx_manual_exempt:
  "list_all (\<lambda>r. power_type r = ''manual'') rows \<Longrightarrow> power_type_parameters_idx md5 rows"
  by (simp add: power_type_parameters_idx_def indexed_rows_def list_all_iff filter_empty_conv [THEN iffD2])


section \<open>Properties of the MAC addresses of a listing\<close>

lemma sort_key_min:
  assumes "sort_key f xs = m # rest"
  shows "\<forall>x\<in>set xs. f m \<le> f x" and "sorted (map f rest)" and "mset (m # rest) = mset xs"
proof -
  have s: "sorted (map f (m # rest))" using sorted_sort_key [of f xs] assms by simp
  have ms: "mset (m # rest) = mset xs" using mset_sort [of f xs] assms by simp
  then have "set xs = set (m # rest)" by (metis mset_eq_setD)
  then show "\<forall>x\<in>set xs. f m \<le> f x" using s by auto
  show "sorted (map f rest)" using s by simp
  show "mset (m # rest) = mset xs" by (rule ms)
qed

text \<open>
  C8. \<^verbatim>\<open>configure_macs\<close> returns every node, in order, with its MAC addresses untouched.
  For a node without MAC addresses, \<^verbatim>\<open>primary_mac\<close> and \<^verbatim>\<open>primary_mac_vendor\<close> are
  \<^verbatim>\<open>None\<close> and \<^verbatim>\<open>extra_macs\<close> is empty. Otherwise the MAC addresses of the node are one
  address \<open>m\<close> and the others \<open>rest\<close>, where no address was created before \<open>m\<close> and
  \<open>rest\<close> is in ascending order of creation: \<^verbatim>\<open>primary_mac\<close> is \<open>m\<close>, with its vendor,
  and \<^verbatim>\<open>extra_macs\<close> is \<open>rest\<close>.
\<close>

theorem configure_macs_primary_and_extra:
  "length (configure_macs registration_org nodes) = length nodes
   \<and> (\<forall>i<length nodes.
        macaddress_set (configure_macs registration_org nodes ! i) = macaddress_set (nodes ! i)
        \<and> (macaddress_set (nodes ! i) = [] \<longrightarrow>
             primary_mac (configure_macs registration_org nodes ! i) = None
             \<and> primary_mac_vendor (configure_macs registration_org nodes ! i) = None
             \<and> extra_macs (configure_macs registration_org nodes ! i) = [])
        \<and> (macaddress_set (nodes ! i) \<noteq> [] \<longrightarrow>
             (\<exists>m rest.
                mset (m # rest) = mset (macaddress_set (nodes ! i))
                \<and> (\<forall>x\<in>set (macaddress_set (nodes ! i)). created m \<le> created x)
                \<and> sorted (map created rest)
                \<and> primary_mac (configure_macs registration_org nodes ! i) = Some (mac_address m)
                \<and> primary_mac_vendor (configure_macs registration_org nodes ! i)
                    = Some (get_vendor_for_mac registration_org (mac_address m))
                \<and> extra_macs (configure_macs registration_org nodes ! i)
                    = map mac_address rest)))"
proof (intro conjI allI impI)
  show "length (configure_macs registration_org nodes) = length nodes"
    by (simp add: configure_macs_def)
next
  fix i assume "i < length nodes"
  then show "macaddress_set (configure_macs registration_org nodes ! i) = macaddress_set (nodes ! i)"
    by (simp add: configure_macs_def configure_node_def Let_def)
next
  fix i assume "i < length nodes" "macaddress_set (nodes ! i) = []"
  then show "primary_mac (configure_macs registration_org nodes ! i) = None"
    "primary_mac_vendor (configure_macs registration_org nodes ! i) = None"
    "extra_macs (configure_macs registration_org nodes ! i) = []"
    by (simp_all add: configure_macs_def configure_node_def)
next
  fix i assume i: "i < length nodes" and ne: "macaddress_set (nodes ! i) \<noteq> []"
  let ?ms = "macaddress_set (nodes ! i)"
  have "sort_key created ?ms \<noteq> []"
    using ne by (metis length_sort length_0_conv)
  then obtain m rest where s: "sort_key created ?ms = m # rest"
    by (cases "sort_key created ?ms") simp_all
  note facts = sort_key_min [OF s]
  have "primary_mac (configure_macs registration_org nodes ! i) = Some (mac_address m)"
    "primary_mac_vendor (configure_macs registration_org nodes ! i)
       = Some (get_vendor_for_mac registration_org (mac_address m))"
    "extra_macs (configure_macs registration_org nodes ! i) = map mac_address rest"
    using i s by (simp_all add: configure_macs_def configure_node_def)
  with facts show "\<exists>m rest.
                mset (m # rest) = mset (macaddress_set (nodes ! i))
                \<and> (\<forall>x\<in>set (macaddress_set (nodes ! i)). created m \<le> created x)
                \<and> sorted (map created rest)
                \<and> primary_mac (configure_macs registration_org nodes ! i) = Some (mac_address m)
                \<and> primary_mac_vendor (configure_macs registration_org nodes ! i)
                    = Some (get_vendor_for_mac registration_org (mac_address m))
                \<and> extra_macs (configure_macs registration_org nodes ! i)
                    = map mac_address rest"
    by blast
qed

theorem configure_macs_primary_and_extra_witness:
  "configure_macs (\<lambda>mac. if mac = ''52:54:00:00:00:02'' then Some ''QEMU'' else None)
     [\<lparr>macaddress_set =
          [\<lparr>mac_address = ''52:54:00:00:00:01'', created = 30\<rparr>,
           \<lparr>mac_address = ''52:54:00:00:00:02'', created = 10\<rparr>,
           \<lparr>mac_address = ''52:54:00:00:00:03'', created = 20\<rparr>],
        primary_mac = None, primary_mac_vendor = None, extra_macs = []\<rparr>,
      \<lparr>macaddress_set = [],
        primary_mac = Some ''stale'', primary_mac_vendor = Some ''stale'', extra_macs = [''stale'']\<rparr>]
   = [\<lparr>macaddress_set =
          [\<lparr>mac_address = ''52:54:00:00:00:01'', created = 30\<rparr>,
           \<lparr>mac_address = ''52:54:00:00:00:02'', created = 10\<rparr>,
           \<lparr>mac_address = ''52:54:00:00:00:03'', created = 20\<rparr>],
        primary_mac = Some ''52:54:00:00:00:02'', primary_mac_vendor = Some ''QEMU'',
        extra_macs = [''52:54:00:00:00:03'', ''52:54:00:00:00:01'']\<rparr>,
      \<lparr>macaddress_set = [],
        primary_mac = None, primary_mac_vendor = None, extra_macs = []\<rparr>]"
  using configure_macs_primary_and_extra
    [of "\<lambda>mac. if mac = ''52:54:00:00:00:02'' then Some ''QEMU'' else None"
        "[\<lparr>macaddress_set =
          [\<lparr>mac_address = ''52:54:00:00:00:01'', created = 30\<rparr>,
           \<lparr>mac_address = ''52:54:00:00:00:02'', created = 10\<rparr>,
           \<lparr>mac_address = ''52:54:00:00:00:03'', created = 20\<rparr>],
        primary_mac = None, primary_mac_vendor = None, extra_macs = []\<rparr>,
      \<lparr>macaddress_set = [],
        primary_mac = Some ''stale'', primary_mac_vendor = Some ''stale'',
        extra_macs = [''stale'']\<rparr>]"]
  by (simp add: configure_macs_def configure_node_def get_vendor_for_mac_def)


section \<open>Properties of the event lists\<close>

lemma order_by_minus_id_sorted:
  "sorted_wrt (\<lambda>a b. a \<ge> b) (map event_id (order_by_minus_id events))"
proof -
  have "sorted (map event_id (sort_key event_id events))" by (rule sorted_sort_key)
  then have "sorted_wrt (\<lambda>a b. b \<ge> a) (rev (map event_id (order_by_minus_id events)))"
    by (simp add: order_by_minus_id_def rev_map)
  then show ?thesis by (simp only: sorted_wrt_rev)
qed

lemma order_by_minus_id_mset: "mset (order_by_minus_id events) = mset events"
  by (simp add: order_by_minus_id_def)

lemma order_by_minus_id_filter:
  "order_by_minus_id (filter P events) = filter P (order_by_minus_id events)"
  by (simp add: order_by_minus_id_def filter_sort [symmetric] rev_filter)

lemma NodeView_events_example:
  "NodeView_get_context_data
     [\<lparr>event_id = 1, event_node = Some ''n1'', type_level = 20\<rparr>,
      \<lparr>event_id = 2, event_node = Some ''n1'', type_level = 10\<rparr>,
      \<lparr>event_id = 3, event_node = Some ''n2'', type_level = 20\<rparr>,
      \<lparr>event_id = 4, event_node = Some ''n1'', type_level = 40\<rparr>,
      \<lparr>event_id = 5, event_node = Some ''n1'', type_level = 10\<rparr>,
      \<lparr>event_id = 6, event_node = Some ''n1'', type_level = 20\<rparr>,
      \<lparr>event_id = 7, event_node = None, type_level = 20\<rparr>,
      \<lparr>event_id = 8, event_node = Some ''n1'', type_level = 30\<rparr>,
      \<lparr>event_id = 9, event_node = Some ''n1'', type_level = 20\<rparr>,
      \<lparr>event_id = 10, event_node = Some ''n1'', type_level = 20\<rparr>]
     \<lparr>system_id = ''n1'', status = READY\<rparr>
   = \<lparr>event_list =
        [\<lparr>event_id = 10, event_node = Some ''n1'', type_level = 20\<rparr>,
         \<lparr>event_id = 9, event_node = Some ''n1'', type_level = 20\<rparr>,
         \<lparr>event_id = 8, event_node = Some ''n1'', type_level = 30\<rparr>,
         \<lparr>event_id = 6, event_node = Some ''n1'', type_level = 20\<rparr>,
         \<lparr>event_id = 4, event_node = Some ''n1'', type_level = 40\<rparr>],
      event_count = 8\<rparr>"
  by (simp add: NodeView_get_context_data_def filter_node_def order_by_minus_id_def DEBUG_def
      number_of_events_shown_def)

lemma NodeEventListView_example:
  "NodeEventListView_get_queryset
     [\<lparr>event_id = 1, event_node = Some ''n1'', type_level = 20\<rparr>,
      \<lparr>event_id = 2, event_node = Some ''n1'', type_level = 10\<rparr>,
      \<lparr>event_id = 3, event_node = Some ''n2'', type_level = 20\<rparr>,
      \<lparr>event_id = 4, event_node = Some ''n1'', type_level = 40\<rparr>,
      \<lparr>event_id = 5, event_node = Some ''n1'', type_level = 10\<rparr>,
      \<lparr>event_id = 6, event_node = Some ''n1'', type_level = 20\<rparr>,
      \<lparr>event_id = 7, event_node = None, type_level = 20\<rparr>,
      \<lparr>event_id = 8, event_node = Some ''n1'', type_level = 30\<rparr>,
      \<lparr>event_id = 9, event_node = Some ''n1'', type_level = 20\<rparr>,
      \<lparr>event_id = 10, event_node = Some ''n1'', type_level = 20\<rparr>]
     \<lparr>system_id = ''n1'', status = READY\<rparr>
   = [\<lparr>event_id = 10, event_node = Some ''n1'', type_level = 20\<rparr>,
      \<lparr>event_id = 9, event_node = Some ''n1'', type_level = 20\<rparr>,
      \<lparr>event_id = 8, event_node = Some ''n1'', type_level = 30\<rparr>,
      \<lparr>event_id = 6, event_node = Some ''n1'', type_level = 20\<rparr>,
      \<lparr>event_id = 5, event_node = Some ''n1'', type_level = 10\<rparr>,
      \<lparr>event_id = 4, event_node = Some ''n1'', type_level = 40\<rparr>,
      \<lparr>event_id = 2, event_node = Some ''n1'', type_level = 10\<rparr>,
      \<lparr>event_id = 1, event_node = Some ''n1'', type_level = 20\<rparr>]"
  by (simp add: NodeEventListView_get_queryset_def filter_node_def order_by_minus_id_def)

text \<open>
  C9. The queryset of \<^verbatim>\<open>NodeEventListView\<close> holds exactly the events of the node, each
  as often as the table does, in descending order of their ids. The \<^verbatim>\<open>event_list\<close> of
  \<^verbatim>\<open>NodeView\<close> is in descending order of ids too, and it is drawn from the head of that
  order: it is the first five entries of the queryset of \<^verbatim>\<open>NodeEventListView\<close> whose
  level is not DEBUG. Put without the other view: the events of the node whose level is
  not DEBUG are \<^verbatim>\<open>event_list\<close> followed by some \<open>rest\<close>, the whole in descending
  order of ids, and \<^verbatim>\<open>event_list\<close> has five entries, or all of them when there are fewer.
\<close>

theorem event_lists_newest_first:
  "mset (NodeEventListView_get_queryset events n)
     = filter_mset (\<lambda>e. event_node e = Some (system_id n)) (mset events)
   \<and> sorted_wrt (\<lambda>a b. a \<ge> b) (map event_id (NodeEventListView_get_queryset events n))
   \<and> sorted_wrt (\<lambda>a b. a \<ge> b)
       (map event_id (event_list (NodeView_get_context_data events n)))
   \<and> event_list (NodeView_get_context_data events n)
       = take 5 (filter (\<lambda>e. type_level e \<noteq> DEBUG)
                   (NodeEventListView_get_queryset events n))
   \<and> (\<exists>rest.
        mset (event_list (NodeView_get_context_data events n) @ rest)
          = filter_mset (\<lambda>e. event_node e = Some (system_id n) \<and> type_level e \<noteq> DEBUG)
              (mset events)
        \<and> sorted_wrt (\<lambda>a b. a \<ge> b)
            (map event_id (event_list (NodeView_get_context_data events n) @ rest))
        \<and> length (event_list (NodeView_get_context_data events n))
            = min 5 (size (filter_mset
                (\<lambda>e. event_node e = Some (system_id n) \<and> type_level e \<noteq> DEBUG)
                (mset events))))"
proof (intro conjI)
  let ?shown = "order_by_minus_id
     (filter (\<lambda>e. type_level e \<noteq> DEBUG) (filter_node n events))"
  have el: "event_list (NodeView_get_context_data events n) = take 5 ?shown"
    by (simp add: NodeView_get_context_data_def number_of_events_shown_def)
  show "mset (NodeEventListView_get_queryset events n)
     = filter_mset (\<lambda>e. event_node e = Some (system_id n)) (mset events)"
    by (simp add: NodeEventListView_get_queryset_def order_by_minus_id_mset filter_node_def)
  show "sorted_wrt (\<lambda>a b. a \<ge> b) (map event_id (NodeEventListView_get_queryset events n))"
    by (simp only: NodeEventListView_get_queryset_def order_by_minus_id_sorted)
  have "sorted_wrt (\<lambda>a b. a \<ge> b) (take 5 (map event_id ?shown))"
    using order_by_minus_id_sorted by (rule sorted_wrt_take)
  then show "sorted_wrt (\<lambda>a b. a \<ge> b)
       (map event_id (event_list (NodeView_get_context_data events n)))"
    by (simp add: el take_map)
  show "event_list (NodeView_get_context_data events n)
       = take 5 (filter (\<lambda>e. type_level e \<noteq> DEBUG)
                   (NodeEventListView_get_queryset events n))"
    by (simp only: el NodeEventListView_get_queryset_def order_by_minus_id_filter)
  have whole: "event_list (NodeView_get_context_data events n) @ drop 5 ?shown = ?shown"
    by (simp add: el)
  have ms: "mset ?shown
      = filter_mset (\<lambda>e. event_node e = Some (system_id n) \<and> type_level e \<noteq> DEBUG)
          (mset events)"
    by (simp add: order_by_minus_id_mset filter_node_def conj_commute)
  have "mset (event_list (NodeView_get_context_data events n) @ drop 5 ?shown)
      = filter_mset (\<lambda>e. event_node e = Some (system_id n) \<and> type_level e \<noteq> DEBUG)
          (mset events)"
    by (simp only: whole ms)
  moreover have "sorted_wrt (\<lambda>a b. a \<ge> b)
      (map event_id (event_list (NodeView_get_context_data events n) @ drop 5 ?shown))"
    by (simp only: whole order_by_minus_id_sorted)
  moreover have "length (event_list (NodeView_get_context_data events n))
      = min 5 (size (filter_mset
          (\<lambda>e. event_node e = Some (system_id n) \<and> type_level e \<noteq> DEBUG) (mset events)))"
  proof -
    have "length (event_list (NodeView_get_context_data events n)) = min 5 (length ?shown)"
      by (simp add: el min.commute)
    also have "length ?shown = size (mset ?shown)" by simp
    finally show ?thesis by (simp only: ms)
  qed
  ultimately show "\<exists>rest.
        mset (event_list (NodeView_get_context_data events n) @ rest)
          = filter_mset (\<lambda>e. event_node e = Some (system_id n) \<and> type_level e \<noteq> DEBUG)
              (mset events)
        \<and> sorted_wrt (\<lambda>a b. a \<ge> b)
            (map event_id (event_list (NodeView_get_context_data events n) @ rest))
        \<and> length (event_list (NodeView_get_context_data events n))
            = min 5 (size (filter_mset
                (\<lambda>e. event_node e = Some (system_id n) \<and> type_level e \<noteq> DEBUG)
                (mset events)))"
    by blast
qed

theorem event_lists_newest_first_witness:
  "map event_id (NodeEventListView_get_queryset
     [\<lparr>event_id = 1, event_node = Some ''n1'', type_level = 20\<rparr>,
      \<lparr>event_id = 2, event_node = Some ''n1'', type_level = 10\<rparr>,
      \<lparr>event_id = 3, event_node = Some ''n2'', type_level = 20\<rparr>,
      \<lparr>event_id = 4, event_node = Some ''n1'', type_level = 40\<rparr>,
      \<lparr>event_id = 5, event_node = Some ''n1'', type_level = 10\<rparr>,
      \<lparr>event_id = 6, event_node = Some ''n1'', type_level = 20\<rparr>,
      \<lparr>event_id = 7, event_node = None, type_level = 20\<rparr>,
      \<lparr>event_id = 8, event_node = Some ''n1'', type_level = 30\<rparr>,
      \<lparr>event_id = 9, event_node = Some ''n1'', type_level = 20\<rparr>,
      \<lparr>event_id = 10, event_node = Some ''n1'', type_level = 20\<rparr>]
     \<lparr>system_id = ''n1'', status = READY\<rparr>) = [10, 9, 8, 6, 5, 4, 2, 1]
   \<and> map event_id (event_list (NodeView_get_context_data
     [\<lparr>event_id = 1, event_node = Some ''n1'', type_level = 20\<rparr>,
      \<lparr>event_id = 2, event_node = Some ''n1'', type_level = 10\<rparr>,
      \<lparr>event_id = 3, event_node = Some ''n2'', type_level = 20\<rparr>,
      \<lparr>event_id = 4, event_node = Some ''n1'', type_level = 40\<rparr>,
      \<lparr>event_id = 5, event_node = Some ''n1'', type_level = 10\<rparr>,
      \<lparr>event_id = 6, event_node = Some ''n1'', type_level = 20\<rparr>,
      \<lparr>event_id = 7, event_node = None, type_level = 20\<rparr>,
      \<lparr>event_id = 8, event_node = Some ''n1'', type_level = 30\<rparr>,
      \<lparr>event_id = 9, event_node = Some ''n1'', type_level = 20\<rparr>,
      \<lparr>event_id = 10, event_node = Some ''n1'', type_level = 20\<rparr>]
     \<lparr>system_id = ''n1'', status = READY\<rparr>)) = [10, 9, 8, 6, 4]"
  using event_lists_newest_first
    [of "[\<lparr>event_id = 1, event_node = Some ''n1'', type_level = 20\<rparr>,
      \<lparr>event_id = 2, event_node = Some ''n1'', type_level = 10\<rparr>,
      \<lparr>event_id = 3, event_node = Some ''n2'', type_level = 20\<rparr>,
      \<lparr>event_id = 4, event_node = Some ''n1'', type_level = 40\<rparr>,
      \<lparr>event_id = 5, event_node = Some ''n1'', type_level = 10\<rparr>,
      \<lparr>event_id = 6, event_node = Some ''n1'', type_level = 20\<rparr>,
      \<lparr>event_id = 7, event_node = None, type_level = 20\<rparr>,
      \<lparr>event_id = 8, event_node = Some ''n1'', type_level = 30\<rparr>,
      \<lparr>event_id = 9, event_node = Some ''n1'', type_level = 20\<rparr>,
      \<lparr>event_id = 10, event_node = Some ''n1'', type_level = 20\<rparr>]"
     "\<lparr>system_id = ''n1'', status = READY\<rparr>", THEN conjunct2, THEN conjunct2,
     THEN conjunct2, THEN conjunct1]
  by (simp only: NodeView_events_example NodeEventListView_example) (simp add: DEBUG_def)

text \<open>
  C10. The \<^verbatim>\<open>event_list\<close> of \<^verbatim>\<open>NodeView\<close> has at most 5 events, all of them events of
  the node whose level is not DEBUG, while \<^verbatim>\<open>event_count\<close> is the number of all the
  events of the node, DEBUG or not; so the count is at least the length of the list, and
  there are tables for which it is more than 5 and more than the length of the list.
\<close>

theorem NodeView_event_list_and_count:
  "length (event_list (NodeView_get_context_data events n)) \<le> 5
   \<and> (\<forall>e\<in>set (event_list (NodeView_get_context_data events n)).
        type_level e \<noteq> DEBUG \<and> event_node e = Some (system_id n) \<and> e \<in> set events)
   \<and> event_count (NodeView_get_context_data events n)
       = length (filter (\<lambda>e. event_node e = Some (system_id n)) events)
   \<and> length (event_list (NodeView_get_context_data events n))
       \<le> event_count (NodeView_get_context_data events n)
   \<and> (\<exists>events' n'.
        5 < event_count (NodeView_get_context_data events' n')
        \<and> length (event_list (NodeView_get_context_data events' n'))
            < event_count (NodeView_get_context_data events' n'))"
proof (intro conjI ballI)
  let ?shown = "filter (\<lambda>e. type_level e \<noteq> DEBUG) (filter_node n events)"
  have el: "event_list (NodeView_get_context_data events n)
      = take number_of_events_shown (order_by_minus_id ?shown)"
    by (simp add: NodeView_get_context_data_def)
  show "length (event_list (NodeView_get_context_data events n)) \<le> 5"
    by (simp add: el number_of_events_shown_def)
  show "event_count (NodeView_get_context_data events n)
       = length (filter (\<lambda>e. event_node e = Some (system_id n)) events)"
    by (simp add: NodeView_get_context_data_def filter_node_def)
  have "length (order_by_minus_id ?shown) = length ?shown"
    by (simp add: order_by_minus_id_def)
  then have "length (event_list (NodeView_get_context_data events n)) \<le> length ?shown"
    by (simp add: el)
  also have "\<dots> \<le> length (filter_node n events)" by (rule length_filter_le)
  finally show "length (event_list (NodeView_get_context_data events n))
       \<le> event_count (NodeView_get_context_data events n)"
    by (simp add: NodeView_get_context_data_def)
  show "\<exists>events' n'.
        5 < event_count (NodeView_get_context_data events' n')
        \<and> length (event_list (NodeView_get_context_data events' n'))
            < event_count (NodeView_get_context_data events' n')"
    by (intro exI, subst (1 2 3) NodeView_events_example) simp
  fix e assume "e \<in> set (event_list (NodeView_get_context_data events n))"
  then have "e \<in> set (order_by_minus_id ?shown)"
    unfolding el by (rule in_set_takeD)
  then have "e \<in> set ?shown" by (simp add: order_by_minus_id_def)
  then show "type_level e \<noteq> DEBUG" "event_node e = Some (system_id n)" "e \<in> set events"
    by (simp_all add: filter_node_def)
qed

theorem NodeView_event_list_and_count_witness:
  "length (event_list (NodeView_get_context_data
     [\<lparr>event_id = 1, event_node = Some ''n1'', type_level = 20\<rparr>,
      \<lparr>event_id = 2, event_node = Some ''n1'', type_level = 10\<rparr>,
      \<lparr>event_id = 3, event_node = Some ''n2'', type_level = 20\<rparr>,
      \<lparr>event_id = 4, event_node = Some ''n1'', type_level = 40\<rparr>,
      \<lparr>event_id = 5, event_node = Some ''n1'', type_level = 10\<rparr>,
      \<lparr>event_id = 6, event_node = Some ''n1'', type_level = 20\<rparr>,
      \<lparr>event_id = 7, event_node = None, type_level = 20\<rparr>,
      \<lparr>event_id = 8, event_node = Some ''n1'', type_level = 30\<rparr>,
      \<lparr>event_id = 9, event_node = Some ''n1'', type_level = 20\<rparr>,
      \<lparr>event_id = 10, event_node = Some ''n1'', type_level = 20\<rparr>]
     \<lparr>system_id = ''n1'', status = READY\<rparr>)) = 5
   \<and> event_count (NodeView_get_context_data
     [\<lparr>event_id = 1, event_node = Some ''n1'', type_level = 20\<rparr>,
      \<lparr>event_id = 2, event_node = Some ''n1'', type_level = 10\<rparr>,
      \<lparr>event_id = 3, event_node = Some ''n2'', type_level = 20\<rparr>,
      \<lparr>event_id = 4, event_node = Some ''n1'', type_level = 40\<rparr>,
      \<lparr>event_id = 5, event_node = Some ''n1'', type_level = 10\<rparr>,
      \<lparr>event_id = 6, event_node = Some ''n1'', type_level = 20\<rparr>,
      \<lparr>event_id = 7, event_node = None, type_level = 20\<rparr>,
      \<lparr>event_id = 8, event_node = Some ''n1'', type_level = 30\<rparr>,
      \<lparr>event_id = 9, event_node = Some ''n1'', type_level = 20\<rparr>,
      \<lparr>event_id = 10, event_node = Some ''n1'', type_level = 20\<rparr>]
     \<lparr>system_id = ''n1'', status = READY\<rparr>) = 8"
  using NodeView_event_list_and_count
    [of "[\<lparr>event_id = 1, event_node = Some ''n1'', type_level = 20\<rparr>,
      \<lparr>event_id = 2, event_node = Some ''n1'', type_level = 10\<rparr>,
      \<lparr>event_id = 3, event_node = Some ''n2'', type_level = 20\<rparr>,
      \<lparr>event_id = 4, event_node = Some ''n1'', type_level = 40\<rparr>,
      \<lparr>event_id = 5, event_node = Some ''n1'', type_level = 10\<rparr>,
      \<lparr>event_id = 6, event_node = Some ''n1'', type_level = 20\<rparr>,
      \<lparr>event_id = 7, event_node = None, type_level = 20\<rparr>,
      \<lparr>event_id = 8, event_node = Some ''n1'', type_level = 30\<rparr>,
      \<lparr>event_id = 9, event_node = Some ''n1'', type_level = 20\<rparr>,
      \<lparr>event_id = 10, event_node = Some ''n1'', type_level = 20\<rparr>]"
     "\<lparr>system_id = ''n1'', status = READY\<rparr>"]
  by (simp only: NodeView_events_example) simp


end
